theory Spec2Isabelle
  imports Main "HOL-Library.Sublist"
begin

section \<open>API enablement checking with polling and retries\<close>

text \<open>
  A shallow embedding of the enablement module (\<^verbatim>\<open>check\<close>, \<^verbatim>\<open>enable\<close>,
  \<^verbatim>\<open>pollCheckEnabled\<close>, \<^verbatim>\<open>enableApiWithRetries\<close>, \<^verbatim>\<open>ensure\<close>,
  \<^verbatim>\<open>bestEffortEnsure\<close>, \<^verbatim>\<open>enableApiURI\<close> and the two cache helpers).

  Every asynchronous function becomes a function from the world before the call to its
  outcome and the world after it. A rejected promise is the left injection of a sum, a
  resolved one the right injection. The world holds the value stored under the key
  \<^verbatim>\<open>apiEnablementCache\<close>, the shared objects of the platform that a property access can
  reach (\<^verbatim>\<open>Object.prototype\<close> and what hangs off it), and the trace of everything the
  module did that can be seen from outside: store accesses, HTTP requests with their
  answers, timer waits, log lines and telemetry events.
\<close>

subsection \<open>Errors\<close>

text \<open>
  The object the HTTP client rejects with. Of it the module reads \<^verbatim>\<open>message\<close> and
  \<^verbatim>\<open>context?.body?.error?.status\<close> (absent when any link of the chain is missing);
  \<open>details\<close> stands for the rest of the error body, which only \<^verbatim>\<open>isBillingError\<close>
  looks at.
\<close>

record api_error =
  message :: string
  status :: "string option"
  details :: "string list"

text \<open>
  What a function of the module can throw: the client's error object (possibly with its
  message rewritten in place), a \<^verbatim>\<open>new FirebaseError(msg)\<close> built by the module, the
  \<^verbatim>\<open>TypeError\<close> of \<^verbatim>\<open>new URL(s)\<close> for an \<open>s\<close> that is not an absolute URL, or the
  \<^verbatim>\<open>TypeError\<close> of a property access that fails on the property of the given name (the
  module is strict-mode code, so a refused assignment throws).
\<close>

datatype thrown =
    ClientError api_error
  | FirebaseError string
  | InvalidURL string
  | PropertyTypeError string

subsection \<open>Objects of the platform\<close>

text \<open>
  The store holds plain objects, and \<^verbatim>\<open>cache[projectId][apiName]\<close> is an ordinary property
  access: a name that is not an own property is looked up along the prototype chain, so
  the access can reach objects that are shared by the whole process. A shared object is
  named by a \<open>ref\<close>. A value is \<^verbatim>\<open>undefined\<close>, \<^verbatim>\<open>null\<close>, a primitive (of which the model
  keeps the prototype object its property reads go to and whether it is truthy), or a
  reference to a shared object. A property of a shared object is a data property (its
  value and whether it is writable), the \<^verbatim>\<open>__proto__\<close> accessor, or an accessor whose
  getter and setter throw. A shared object has its own properties, the list of its
  prototypes (nearest first; the module never changes a prototype) and its
  extensibility.
\<close>

type_synonym ref = string

datatype jsval = Undefined | Null | Primitive ref bool | Shared ref

datatype slot = Data jsval bool | ProtoAccessor | Throwing

record shared_object =
  props :: "string \<rightharpoonup> slot"
  protoChain :: "ref list"
  extensible :: bool

type_synonym shared_objects = "ref \<Rightarrow> shared_object"

definition objectPrototype :: ref where
  "objectPrototype = ''Object.prototype''"

definition booleanPrototype :: ref where
  "booleanPrototype = ''Boolean.prototype''"

definition jsBool :: "bool \<Rightarrow> jsval" where
  "jsBool b = Primitive booleanPrototype b"

definition truthy :: "jsval \<Rightarrow> bool" where
  "truthy v = (case v of Undefined \<Rightarrow> False | Null \<Rightarrow> False | Primitive wr t \<Rightarrow> t | Shared r \<Rightarrow> True)"

subsection \<open>Trace, world and environment\<close>

datatype event =
    ConfigGet
  | ConfigSet string string
  | HttpGet string string "api_error + string"
  | HttpPost string string "api_error + unit"
  | Sleep nat
  | LogSuccess string string
  | LogBullet string string
  | LogWarning string string
  | LogDebug string
  | TrackGA4 string string

text \<open>
  \<open>ConfigGet\<close> is a \<^verbatim>\<open>configstore.get(API_ENABLEMENT_CACHE_KEY)\<close>; \<open>ConfigSet p a\<close> is the
  \<^verbatim>\<open>configstore.set\<close> at the end of \<^verbatim>\<open>cacheEnabledAPI(p, a)\<close>. \<open>HttpGet p a r\<close> is the status
  query for project \<open>p\<close> and service \<open>a\<close> with its answer \<open>r\<close> (the \<^verbatim>\<open>state\<close> field of the
  body, or the error); \<open>HttpPost p a r\<close> is the enable request with its answer.
\<close>

type_synonym cache = "string \<rightharpoonup> (string \<rightharpoonup> bool)"

text \<open>
  Modelled from the spec: \<^verbatim>\<open>configstore\<close> (imported from \<^verbatim>\<open>./configstore\<close>, not among
  the sources) is "a persistent key-value store keyed by a fixed top-level key
  (\<^verbatim>\<open>apiEnablementCache\<close>), storing a two-level mapping projectId -> serviceName -> true":
  \<^verbatim>\<open>get\<close> returns what the last \<^verbatim>\<open>set\<close> stored, as a fresh plain object, or \<^verbatim>\<open>undefined\<close>
  (\<open>None\<close>) when nothing was stored. What is stored are the own properties of the value
  handed to \<^verbatim>\<open>set\<close>: a map from project ids to records, each a map from service names to
  booleans.
\<close>

record world =
  configstore :: "cache option"
  trace :: "event list"
  shared :: shared_objects

text \<open>
  What the module imports and the sources do not contain is a parameter of the model:
  \<^item> \<open>bold\<close>: the terminal styling function of the colour library;
  \<^item> \<open>urlHostname\<close>: \<^verbatim>\<open>new URL(s).hostname\<close> of the platform, \<open>None\<close> when the
    constructor throws;
  \<^item> \<open>isBillingError\<close>: the predicate imported from \<^verbatim>\<open>./error\<close>;
  \<^item> \<open>apiGet\<close>, \<open>apiPost\<close>: the remote service behind \<^verbatim>\<open>apiClient\<close>. Its answer may
    depend on everything that happened before (the trace) and on the request path;
  \<^item> \<open>typeErrorText\<close>: the message the engine gives the \<^verbatim>\<open>TypeError\<close> of a failed access
    to the property of a given name.
\<close>

record env =
  bold :: "string \<Rightarrow> string"
  urlHostname :: "string \<Rightarrow> string option"
  isBillingError :: "api_error \<Rightarrow> bool"
  apiGet :: "event list \<Rightarrow> string \<Rightarrow> api_error + string"
  apiPost :: "event list \<Rightarrow> string \<Rightarrow> api_error + unit"
  typeErrorText :: "string \<Rightarrow> string"

definition emit :: "event \<Rightarrow> world \<Rightarrow> world" where
  "emit e w = w\<lparr>trace := trace w @ [e]\<rparr>"

subsection \<open>Constants\<close>

definition pollInterval :: nat where
  "pollInterval = 10000"

definition pollsBeforeRetry :: nat where
  "pollsBeforeRetry = 12"

definition newline :: string where
  "newline = [CHR 0x0A]"

subsection \<open>Property access\<close>

text \<open>
  \<open>findSlot sh rs n\<close>: the first object among \<open>rs\<close> that has an own property \<open>n\<close>, with
  that property. The receiver of an access is a plain object of the store (whose own
  properties the caller has looked at already; its prototype is \<^verbatim>\<open>Object.prototype\<close>), a
  shared object, or a primitive, which reads through the prototype of its wrapper.
\<close>

fun findSlot :: "shared_objects \<Rightarrow> ref list \<Rightarrow> string \<Rightarrow> (ref \<times> slot) option" where
  "findSlot sh [] n = None"
| "findSlot sh (r # rs) n =
     (case props (sh r) n of Some s \<Rightarrow> Some (r, s) | None \<Rightarrow> findSlot sh rs n)"

datatype receiver = PlainObject | SharedObject ref | PrimitiveValue ref

definition chainOf :: "shared_objects \<Rightarrow> receiver \<Rightarrow> ref list" where
  "chainOf sh rc =
     (case rc of
        PlainObject \<Rightarrow> objectPrototype # protoChain (sh objectPrototype)
      | SharedObject r \<Rightarrow> r # protoChain (sh r)
      | PrimitiveValue wr \<Rightarrow> wr # protoChain (sh wr))"

text \<open>What the \<^verbatim>\<open>__proto__\<close> getter returns for a receiver: its prototype.\<close>

definition prototypeOf :: "shared_objects \<Rightarrow> receiver \<Rightarrow> jsval" where
  "prototypeOf sh rc =
     (case rc of
        PlainObject \<Rightarrow> Shared objectPrototype
      | SharedObject r \<Rightarrow> (case protoChain (sh r) of [] \<Rightarrow> Null | q # qs \<Rightarrow> Shared q)
      | PrimitiveValue wr \<Rightarrow> Shared wr)"

text \<open>Reading a property that is not an own property of a plain receiver.\<close>

definition getInherited :: "shared_objects \<Rightarrow> receiver \<Rightarrow> string \<Rightarrow> thrown + jsval" where
  "getInherited sh rc n =
     (case findSlot sh (chainOf sh rc) n of
        None \<Rightarrow> Inr Undefined
      | Some (h, Data v wr) \<Rightarrow> Inr v
      | Some (h, ProtoAccessor) \<Rightarrow> Inr (prototypeOf sh rc)
      | Some (h, Throwing) \<Rightarrow> Inl (PropertyTypeError n))"

text \<open>
  \<^verbatim>\<open>cache[projectId]\<close> evaluates to a record of the store (an own property of the cache)
  or to whatever the prototype chain gives.
\<close>

datatype target = Inner "string \<rightharpoonup> bool" | Value jsval

definition truthyTarget :: "target \<Rightarrow> bool" where
  "truthyTarget t = (case t of Inner r \<Rightarrow> True | Value v \<Rightarrow> truthy v)"

definition getOuter :: "shared_objects \<Rightarrow> cache \<Rightarrow> string \<Rightarrow> thrown + target" where
  "getOuter sh c projectId =
     (case c projectId of
        Some r \<Rightarrow> Inr (Inner r)
      | None \<Rightarrow>
          (case getInherited sh PlainObject projectId of
             Inl e \<Rightarrow> Inl e
           | Inr v \<Rightarrow> Inr (Value v)))"

text \<open>\<^verbatim>\<open>t?.[apiName]\<close>: \<^verbatim>\<open>undefined\<close> when \<open>t\<close> is \<^verbatim>\<open>undefined\<close> or \<^verbatim>\<open>null\<close>.\<close>

definition getInner :: "shared_objects \<Rightarrow> target \<Rightarrow> string \<Rightarrow> thrown + jsval" where
  "getInner sh t apiName =
     (case t of
        Inner r \<Rightarrow>
          (case r apiName of
             Some b \<Rightarrow> Inr (jsBool b)
           | None \<Rightarrow> getInherited sh PlainObject apiName)
      | Value Undefined \<Rightarrow> Inr Undefined
      | Value Null \<Rightarrow> Inr Undefined
      | Value (Shared r) \<Rightarrow> getInherited sh (SharedObject r) apiName
      | Value (Primitive wr tv) \<Rightarrow> getInherited sh (PrimitiveValue wr) apiName)"

text \<open>
  Assignment follows the chain as well: the first object that has the property decides.
  A writable data property, or no property at all, lets the receiver get an own property
  (if it is an object and extensible); a data property that is not writable refuses; the
  \<^verbatim>\<open>__proto__\<close> setter ignores a value that is neither an object nor \<^verbatim>\<open>null\<close>; a primitive
  receiver cannot get a property. A refused assignment throws.

  \<open>assignOuterEmpty\<close> is \<^verbatim>\<open>cache[projectId] = {}\<close>. Its \<^verbatim>\<open>__proto__\<close> case is not reached:
  the statement runs only when \<^verbatim>\<open>cache[projectId]\<close> is falsy, and the getter gives the
  prototype object.
\<close>

definition assignOuterEmpty :: "shared_objects \<Rightarrow> cache \<Rightarrow> string \<Rightarrow> thrown + cache" where
  "assignOuterEmpty sh c projectId =
     (case c projectId of
        Some r \<Rightarrow> Inr (c(projectId \<mapsto> Map.empty))
      | None \<Rightarrow>
          (case findSlot sh (chainOf sh PlainObject) projectId of
             None \<Rightarrow> Inr (c(projectId \<mapsto> Map.empty))
           | Some (h, Data v wr) \<Rightarrow>
               if wr then Inr (c(projectId \<mapsto> Map.empty))
               else Inl (PropertyTypeError projectId)
           | Some (h, ProtoAccessor) \<Rightarrow> Inr c
           | Some (h, Throwing) \<Rightarrow> Inl (PropertyTypeError projectId)))"

text \<open>\<^verbatim>\<open>r[apiName] = true\<close> on a record \<open>r\<close> of the store.\<close>

definition assignPlain ::
    "shared_objects \<Rightarrow> (string \<rightharpoonup> bool) \<Rightarrow> string \<Rightarrow> thrown + (string \<rightharpoonup> bool)" where
  "assignPlain sh r apiName =
     (case r apiName of
        Some b \<Rightarrow> Inr (r(apiName \<mapsto> True))
      | None \<Rightarrow>
          (case findSlot sh (chainOf sh PlainObject) apiName of
             None \<Rightarrow> Inr (r(apiName \<mapsto> True))
           | Some (h, Data v wr) \<Rightarrow>
               if wr then Inr (r(apiName \<mapsto> True)) else Inl (PropertyTypeError apiName)
           | Some (h, ProtoAccessor) \<Rightarrow> Inr r
           | Some (h, Throwing) \<Rightarrow> Inl (PropertyTypeError apiName)))"

definition defineTrue :: "shared_objects \<Rightarrow> ref \<Rightarrow> string \<Rightarrow> shared_objects" where
  "defineTrue sh r n = sh(r := (sh r)\<lparr>props := (props (sh r))(n \<mapsto> Data (jsBool True) True)\<rparr>)"

text \<open>\<^verbatim>\<open>o[apiName] = true\<close> on the shared object \<open>o\<close> named \<open>r\<close>.\<close>

definition assignShared :: "shared_objects \<Rightarrow> ref \<Rightarrow> string \<Rightarrow> thrown + shared_objects" where
  "assignShared sh r apiName =
     (case findSlot sh (chainOf sh (SharedObject r)) apiName of
        None \<Rightarrow>
          if extensible (sh r) then Inr (defineTrue sh r apiName)
          else Inl (PropertyTypeError apiName)
      | Some (h, Data v wr) \<Rightarrow>
          if \<not> wr then Inl (PropertyTypeError apiName)
          else if h = r \<or> extensible (sh r) then Inr (defineTrue sh r apiName)
          else Inl (PropertyTypeError apiName)
      | Some (h, ProtoAccessor) \<Rightarrow> Inr sh
      | Some (h, Throwing) \<Rightarrow> Inl (PropertyTypeError apiName))"

text \<open>\<^verbatim>\<open>v[apiName] = true\<close> on a primitive \<open>v\<close> whose wrapper has the prototype \<open>wr\<close>.\<close>

definition assignPrimitive :: "shared_objects \<Rightarrow> ref \<Rightarrow> string \<Rightarrow> thrown + unit" where
  "assignPrimitive sh wr apiName =
     (case findSlot sh (chainOf sh (PrimitiveValue wr)) apiName of
        Some (h, ProtoAccessor) \<Rightarrow> Inr ()
      | _ \<Rightarrow> Inl (PropertyTypeError apiName))"

subsection \<open>The cache helpers\<close>

text \<open>The entry of the stored two-level mapping under the two keys, if any.\<close>

definition entry :: "cache option \<Rightarrow> string \<Rightarrow> string \<Rightarrow> bool option" where
  "entry store projectId apiName =
     (case store of
        None \<Rightarrow> None
      | Some c \<Rightarrow> (case c projectId of None \<Rightarrow> None | Some r \<Rightarrow> r apiName))"

text \<open>\<^verbatim>\<open>!!cache?.[projectId]?.[apiName]\<close> on what \<^verbatim>\<open>configstore.get\<close> returns.\<close>

definition checkAPIEnablementCache ::
    "string \<Rightarrow> string \<Rightarrow> world \<Rightarrow> (thrown + bool) \<times> world" where
  "checkAPIEnablementCache projectId apiName w =
     (let w1 = emit ConfigGet w
      in case configstore w of
           None \<Rightarrow> (Inr False, w1)
         | Some cache \<Rightarrow>
             (case getOuter (shared w) cache projectId of
                Inl e \<Rightarrow> (Inl e, w1)
              | Inr t \<Rightarrow>
                  (case getInner (shared w) t apiName of
                     Inl e \<Rightarrow> (Inl e, w1)
                   | Inr v \<Rightarrow> (Inr (truthy v), w1))))"

text \<open>
  \<^verbatim>\<open>cacheEnabledAPI\<close>: read the store (or start from \<^verbatim>\<open>{}\<close>), give \<^verbatim>\<open>cache[projectId]\<close> an
  empty record if it is falsy, assign \<^verbatim>\<open>true\<close> to \<^verbatim>\<open>cache[projectId][apiName]\<close>, and hand
  the cache to \<^verbatim>\<open>configstore.set\<close>. The assignment goes to the record of the store when
  \<^verbatim>\<open>projectId\<close> is an own property of the cache, and otherwise to the shared object or the
  primitive that the prototype chain gives for that name; the store then receives the
  cache without a new entry.
\<close>

definition cacheEnabledAPI :: "string \<Rightarrow> string \<Rightarrow> world \<Rightarrow> (thrown + unit) \<times> world" where
  "cacheEnabledAPI projectId apiName w =
     (let w1 = emit ConfigGet w;
          sh = shared w;
          cache = (case configstore w of None \<Rightarrow> Map.empty | Some c \<Rightarrow> c)
      in case getOuter sh cache projectId of
           Inl e \<Rightarrow> (Inl e, w1)
         | Inr t0 \<Rightarrow>
             (case (if \<not> truthyTarget t0 then assignOuterEmpty sh cache projectId
                    else Inr cache) of
                Inl e \<Rightarrow> (Inl e, w1)
              | Inr cache1 \<Rightarrow>
                  (case getOuter sh cache1 projectId of
                     Inl e \<Rightarrow> (Inl e, w1)
                   | Inr (Inner r) \<Rightarrow>
                       (case assignPlain sh r apiName of
                          Inl e \<Rightarrow> (Inl e, w1)
                        | Inr r' \<Rightarrow>
                            (Inr (), emit (ConfigSet projectId apiName)
                               (w1\<lparr>configstore := Some (cache1(projectId \<mapsto> r'))\<rparr>)))
                   | Inr (Value (Shared r)) \<Rightarrow>
                       (case assignShared sh r apiName of
                          Inl e \<Rightarrow> (Inl e, w1)
                        | Inr sh' \<Rightarrow>
                            (Inr (), emit (ConfigSet projectId apiName)
                               (w1\<lparr>configstore := Some cache1, shared := sh'\<rparr>)))
                   | Inr (Value (Primitive wr tv)) \<Rightarrow>
                       (case assignPrimitive sh wr apiName of
                          Inl e \<Rightarrow> (Inl e, w1)
                        | Inr u \<Rightarrow>
                            (Inr (), emit (ConfigSet projectId apiName)
                               (w1\<lparr>configstore := Some cache1\<rparr>)))
                   | Inr (Value Undefined) \<Rightarrow> (Inl (PropertyTypeError apiName), w1)
                   | Inr (Value Null) \<Rightarrow> (Inl (PropertyTypeError apiName), w1))))"

subsection \<open>Normalising the service identifier\<close>

definition startsWith :: "string \<Rightarrow> string \<Rightarrow> bool" where
  "startsWith s p = (take (length p) s = p)"

text \<open>
  \<^verbatim>\<open>apiUri.startsWith("http") ? new URL(apiUri).hostname : apiUri\<close>, the first statement of
  both \<^verbatim>\<open>check\<close> and \<^verbatim>\<open>ensure\<close>.
\<close>

definition apiNameOf :: "env \<Rightarrow> string \<Rightarrow> thrown + string" where
  "apiNameOf env apiUri =
     (if startsWith apiUri ''http''
      then (case urlHostname env apiUri of
              None \<Rightarrow> Inl (InvalidURL apiUri)
            | Some h \<Rightarrow> Inr h)
      else Inr apiUri)"

definition servicePath :: "string \<Rightarrow> string \<Rightarrow> string" where
  "servicePath projectId apiName = ''/projects/'' @ projectId @ ''/services/'' @ apiName"

subsection \<open>check\<close>

definition check :: "env \<Rightarrow> string \<Rightarrow> string \<Rightarrow> string \<Rightarrow> bool \<Rightarrow> world \<Rightarrow> (thrown + bool) \<times> world" where
  "check env projectId apiUri prefix' silent w =
     (case apiNameOf env apiUri of
        Inl e \<Rightarrow> (Inl e, w)
      | Inr apiName \<Rightarrow>
          (case checkAPIEnablementCache projectId apiName w of
             (Inl e, w1) \<Rightarrow> (Inl e, w1)
           | (Inr cached, w1) \<Rightarrow>
               if cached then (Inr True, w1)
               else
                 (let res = apiGet env (trace w1) (servicePath projectId apiName);
                      w2 = emit (HttpGet projectId apiName res) w1
                  in case res of
                       Inl e \<Rightarrow> (Inl (ClientError e), w2)
                     | Inr state \<Rightarrow>
                         (let isEnabled = (state = ''ENABLED'');
                              w3 = (if isEnabled \<and> \<not> silent
                                    then emit (LogSuccess prefix'
                                           (''required API '' @ bold env apiName @ '' is enabled'')) w2
                                    else w2)
                          in if isEnabled
                             then (case cacheEnabledAPI projectId apiName w3 of
                                     (Inl e, w4) \<Rightarrow> (Inl e, w4)
                                   | (Inr u, w4) \<Rightarrow> (Inr isEnabled, w4))
                             else (Inr isEnabled, w3)))))"

subsection \<open>enable\<close>

definition isPermissionError :: "api_error \<Rightarrow> bool" where
  "isPermissionError e = (status e = Some ''PERMISSION_DENIED'')"

text \<open>
  The regular expression \<^verbatim>\<open>/Permission denied to enable service \[([.a-zA-Z]+)\]/\<close>.
  \<open>inClass\<close> is the character class. \<open>matchHere\<close> matches the expression at the start of
  a string and returns capture group 1: after the literal text the class is taken
  greedily, and the closing bracket must follow (a shorter run cannot be followed by the
  bracket, since the next character is again in the class, so backtracking finds nothing
  else). \<open>regexExec\<close> is \<^verbatim>\<open>exec\<close> without flags: the leftmost position that matches.
\<close>

definition inClass :: "char \<Rightarrow> bool" where
  "inClass c =
     (let n = (of_char c :: nat)
      in c = CHR ''.'' \<or> (97 \<le> n \<and> n \<le> 122) \<or> (65 \<le> n \<and> n \<le> 90))"

definition deniedLiteral :: string where
  "deniedLiteral = ''Permission denied to enable service [''"

fun stripPrefix :: "string \<Rightarrow> string \<Rightarrow> string option" where
  "stripPrefix [] s = Some s"
| "stripPrefix (p # ps) [] = None"
| "stripPrefix (p # ps) (c # cs) = (if p = c then stripPrefix ps cs else None)"

definition matchHere :: "string \<Rightarrow> string option" where
  "matchHere s =
     (case stripPrefix deniedLiteral s of
        None \<Rightarrow> None
      | Some rest \<Rightarrow>
          (let x = takeWhile inClass rest; r = dropWhile inClass rest
           in if x \<noteq> [] \<and> startsWith r '']'' then Some x else None))"

fun regexExec :: "string \<Rightarrow> string option" where
  "regexExec [] = matchHere []"
| "regexExec (c # cs) =
     (case matchHere (c # cs) of Some x \<Rightarrow> Some x | None \<Rightarrow> regexExec cs)"

definition enableApiURI :: "string \<Rightarrow> string \<Rightarrow> string" where
  "enableApiURI projectId apiName =
     ''https://console.cloud.google.com/apis/library/'' @ apiName @ ''?project='' @ projectId"

definition upgradeURL :: "string \<Rightarrow> string" where
  "upgradeURL projectId =
     ''https://console.firebase.google.com/project/'' @ projectId @ ''/usage/details''"

definition billingMessage :: "env \<Rightarrow> string \<Rightarrow> string \<Rightarrow> string" where
  "billingMessage env projectId apiName =
     ''Your project '' @ bold env projectId
     @ '' must be on the Blaze (pay-as-you-go) plan to complete this command. Required API ''
     @ bold env apiName
     @ '' can't be enabled until the upgrade is complete. To upgrade, visit the following URL:''
     @ newline @ newline @ upgradeURL projectId"

definition permissionMessage :: "string \<Rightarrow> string \<Rightarrow> string" where
  "permissionMessage projectId serviceUrl =
     ''Permissions denied enabling '' @ serviceUrl @ ''.'' @ newline
     @ ''        Please ask a project owner to visit the following URL to enable this service:''
     @ newline @ ''        '' @ newline @ ''        ''
     @ ''https://console.cloud.google.com/apis/library/'' @ serviceUrl
     @ ''?project='' @ projectId"

text \<open>
  The error object as the \<^verbatim>\<open>catch\<close> block of \<^verbatim>\<open>enable\<close> sees it. Its \<^verbatim>\<open>try\<close> block can
  throw the client's error (from the request) or a property \<^verbatim>\<open>TypeError\<close> (from
  \<^verbatim>\<open>cacheEnabledAPI\<close>), which has no \<^verbatim>\<open>context\<close>; the other two cases are not reached there.
  \<open>withMessage\<close> is the assignment to \<^verbatim>\<open>err.message\<close>.
\<close>

definition errorObject :: "env \<Rightarrow> thrown \<Rightarrow> api_error" where
  "errorObject env e =
     (case e of
        ClientError err \<Rightarrow> err
      | FirebaseError m \<Rightarrow> \<lparr>message = m, status = None, details = []\<rparr>
      | InvalidURL u \<Rightarrow> \<lparr>message = typeErrorText env u, status = None, details = []\<rparr>
      | PropertyTypeError n \<Rightarrow> \<lparr>message = typeErrorText env n, status = None, details = []\<rparr>)"

definition withMessage :: "thrown \<Rightarrow> string \<Rightarrow> thrown" where
  "withMessage e m =
     (case e of
        ClientError err \<Rightarrow> ClientError (err\<lparr>message := m\<rparr>)
      | FirebaseError m' \<Rightarrow> FirebaseError m
      | InvalidURL u \<Rightarrow> InvalidURL u
      | PropertyTypeError n \<Rightarrow> PropertyTypeError n)"

definition enable :: "env \<Rightarrow> string \<Rightarrow> string \<Rightarrow> world \<Rightarrow> (thrown + unit) \<times> world" where
  "enable env projectId apiName w =
     (let res = apiPost env (trace w) (servicePath projectId apiName @ '':enable'');
          w1 = emit (HttpPost projectId apiName res) w;
          tried = (case res of
                     Inl err \<Rightarrow> (Inl (ClientError err), w1)
                   | Inr u \<Rightarrow> cacheEnabledAPI projectId apiName w1)
      in case tried of
           (Inr u, w2) \<Rightarrow> (Inr (), w2)
         | (Inl err, w2) \<Rightarrow>
             if isBillingError env (errorObject env err)
             then (Inl (FirebaseError (billingMessage env projectId apiName)), w2)
             else if isPermissionError (errorObject env err)
             then (case regexExec (message (errorObject env err)) of
                     Some serviceUrl \<Rightarrow>
                       if serviceUrl \<noteq> []
                       then (Inl (withMessage err (permissionMessage projectId serviceUrl)), w2)
                       else (Inl err, w2)
                   | None \<Rightarrow> (Inl err, w2))
             else (Inl err, w2))"

subsection \<open>Polling and retrying\<close>

definition timeoutMessage :: "env \<Rightarrow> string \<Rightarrow> string" where
  "timeoutMessage env apiName =
     ''Timed out waiting for API '' @ bold env apiName
     @ '' to enable. Please try again in a few minutes.''"

function pollCheckEnabled ::
    "env \<Rightarrow> string \<Rightarrow> string \<Rightarrow> string \<Rightarrow> bool \<Rightarrow> nat \<Rightarrow> nat \<Rightarrow> world \<Rightarrow> (thrown + unit) \<times> world"
  and enableApiWithRetries ::
    "env \<Rightarrow> string \<Rightarrow> string \<Rightarrow> string \<Rightarrow> bool \<Rightarrow> nat \<Rightarrow> world \<Rightarrow> (thrown + unit) \<times> world"
where
  "pollCheckEnabled env projectId apiName prefix' silent enablementRetries pollRetries w =
     (if pollRetries > pollsBeforeRetry
      then enableApiWithRetries env projectId apiName prefix' silent (enablementRetries + 1) w
      else
        (let w1 = emit (Sleep pollInterval) w
         in case check env projectId apiName prefix' silent w1 of
              (Inl e, w2) \<Rightarrow> (Inl e, w2)
            | (Inr isEnabled, w2) \<Rightarrow>
                if isEnabled
                then (Inr (), emit (TrackGA4 ''api_enabled'' apiName) w2)
                else
                  (let w3 = (if \<not> silent
                             then emit (LogBullet prefix'
                                    (''waiting for API '' @ bold env apiName @ '' to activate...'')) w2
                             else w2)
                   in pollCheckEnabled env projectId apiName prefix' silent
                        enablementRetries (pollRetries + 1) w3)))"
| "enableApiWithRetries env projectId apiName prefix' silent enablementRetries w =
     (if enablementRetries > 1
      then (Inl (FirebaseError (timeoutMessage env apiName)), w)
      else
        (case enable env projectId apiName w of
           (Inl e, w1) \<Rightarrow> (Inl e, w1)
         | (Inr u, w1) \<Rightarrow>
             pollCheckEnabled env projectId apiName prefix' silent enablementRetries 0 w1))"
  by pat_completeness auto
termination
  by (relation "measure (\<lambda>x. case x of
         Inl (env, projectId, apiName, prefix', silent, enablementRetries, pollRetries, w) \<Rightarrow>
           (2 - enablementRetries) * 20 + (14 - pollRetries) + 1
       | Inr (env, projectId, apiName, prefix', silent, enablementRetries, w) \<Rightarrow>
           (3 - enablementRetries) * 20)")
     (auto simp: pollsBeforeRetry_def)

declare pollCheckEnabled.simps [simp del] enableApiWithRetries.simps [simp del]

subsection \<open>ensure and bestEffortEnsure\<close>

definition ensure :: "env \<Rightarrow> string \<Rightarrow> string \<Rightarrow> string \<Rightarrow> bool \<Rightarrow> world \<Rightarrow> (thrown + unit) \<times> world" where
  "ensure env projectId apiUri prefix' silent w =
     (case apiNameOf env apiUri of
        Inl e \<Rightarrow> (Inl e, w)
      | Inr hostname \<Rightarrow>
          (let w1 = (if \<not> silent
                     then emit (LogBullet prefix'
                            (''ensuring required API '' @ bold env hostname @ '' is enabled...'')) w
                     else w)
           in case check env projectId hostname prefix' silent w1 of
                (Inl e, w2) \<Rightarrow> (Inl e, w2)
              | (Inr isEnabled, w2) \<Rightarrow>
                  if isEnabled
                  then (Inr (), w2)
                  else
                    (let w3 = (if \<not> silent
                               then emit (LogWarning prefix'
                                      (''missing required API '' @ bold env hostname
                                       @ ''. Enabling now...'')) w2
                               else w2)
                     in enableApiWithRetries env projectId hostname prefix' silent 0 w3)))"

definition bestEffortEnsure ::
    "env \<Rightarrow> string \<Rightarrow> string \<Rightarrow> string \<Rightarrow> bool \<Rightarrow> world \<Rightarrow> (thrown + unit) \<times> world" where
  "bestEffortEnsure env projectId apiUri prefix' silent w =
     (case ensure env projectId apiUri prefix' silent w of
        (Inl err, w1) \<Rightarrow>
          (Inr (), emit (LogDebug (''Unable to check that '' @ apiUri @ '' is enabled on ''
                    @ projectId @ ''. Calls to it will fail if it is not enabled'')) w1)
      | (Inr u, w1) \<Rightarrow> (Inr (), w1))"

subsection \<open>Properties of traces and messages\<close>

text \<open>A status query for the pair that answered \<^verbatim>\<open>ENABLED\<close>.\<close>

definition reportedEnabled :: "string \<Rightarrow> string \<Rightarrow> event \<Rightarrow> bool" where
  "reportedEnabled p a e = (e = HttpGet p a (Inr ''ENABLED''))"


text \<open>
  \<open>entriesKept s s'\<close>: every entry of the stored mapping \<open>s'\<close> is the entry of \<open>s\<close> under
  the same keys, or is \<open>true\<close>. No entry has become \<open>false\<close> and none has disappeared.
\<close>

definition entriesKept :: "cache option \<Rightarrow> cache option \<Rightarrow> bool" where
  "entriesKept s s' = (\<forall>p a. entry s' p a = entry s p a \<or> entry s' p a = Some True)"

text \<open>
  The pattern \<^verbatim>\<open>Permission denied to enable service [X]\<close> in a message, stated without the
  matcher: at offset \<open>i\<close> stands the literal text, then a name \<open>x\<close> (any text without a
  closing bracket), then the closing bracket. \<open>firstPattern msg x\<close>: \<open>x\<close> is the name of
  the leftmost such offset.
\<close>

definition patternAt :: "string \<Rightarrow> nat \<Rightarrow> string \<Rightarrow> bool" where
  "patternAt msg i x =
     (i \<le> length msg \<and> CHR '']'' \<notin> set x
      \<and> (\<exists>post. drop i msg = deniedLiteral @ x @ '']'' @ post))"

definition firstPattern :: "string \<Rightarrow> string \<Rightarrow> bool" where
  "firstPattern msg x = (\<exists>i. patternAt msg i x \<and> (\<forall>j y. j < i \<longrightarrow> \<not> patternAt msg j y))"

text \<open>
  What it means for the regular expression of the code to match: as above, with the name
  a non-empty run of characters of the class \<^verbatim>\<open>[.a-zA-Z]\<close>.
\<close>

definition deniedAt :: "string \<Rightarrow> nat \<Rightarrow> string \<Rightarrow> bool" where
  "deniedAt msg i x =
     (i \<le> length msg \<and> x \<noteq> [] \<and> list_all inClass x
      \<and> (\<exists>post. drop i msg = deniedLiteral @ x @ '']'' @ post))"

definition firstDenied :: "string \<Rightarrow> string \<Rightarrow> bool" where
  "firstDenied msg x = (\<exists>i. deniedAt msg i x \<and> (\<forall>j y. j < i \<longrightarrow> \<not> deniedAt msg j y))"

subsection \<open>A concrete environment\<close>

text \<open>
  The instances below are used where a statement is evaluated on concrete input.
  \<open>sampleHostname\<close> agrees with \<^verbatim>\<open>new URL(s).hostname\<close> on the strings it accepts
  (\<^verbatim>\<open>http://\<close> or \<^verbatim>\<open>https://\<close>, a lower-case host name, then nothing or a path) and on the
  strings without a scheme, which the platform's constructor rejects; \<open>sampleEnv g p\<close> is
  a service that answers every status query with \<open>g\<close> and every enable request with \<open>p\<close>.

  \<open>pristine\<close> gives the shared objects as the platform starts with them, as far as the
  names used below reach: \<^verbatim>\<open>Object.prototype\<close> with its standard properties,
  \<^verbatim>\<open>Function.prototype\<close>, \<^verbatim>\<open>Boolean.prototype\<close>, the \<^verbatim>\<open>Object\<close> constructor, and the
  built-in functions, each with its \<^verbatim>\<open>name\<close> and \<^verbatim>\<open>length\<close> (not writable; the length of a
  function without parameters is falsy).
\<close>

definition hostChar :: "char \<Rightarrow> bool" where
  "hostChar c =
     (let n = (of_char c :: nat)
      in c = CHR ''.'' \<or> c = CHR ''-'' \<or> (97 \<le> n \<and> n \<le> 122) \<or> (48 \<le> n \<and> n \<le> 57))"

definition hostOf :: "string \<Rightarrow> string option" where
  "hostOf r =
     (let h = takeWhile hostChar r; t = dropWhile hostChar r
      in if h \<noteq> [] \<and> (t = [] \<or> startsWith t ''/'') then Some h else None)"

definition sampleHostname :: "string \<Rightarrow> string option" where
  "sampleHostname s =
     (case stripPrefix ''https://'' s of
        Some r \<Rightarrow> hostOf r
      | None \<Rightarrow> (case stripPrefix ''http://'' s of Some r \<Rightarrow> hostOf r | None \<Rightarrow> None))"

definition builtinFunction :: "bool \<Rightarrow> shared_object" where
  "builtinFunction lengthTruthy =
     \<lparr>props = [''name'' \<mapsto> Data (Primitive ''String.prototype'' True) False,
               ''length'' \<mapsto> Data (Primitive ''Number.prototype'' lengthTruthy) False],
      protoChain = [''Function.prototype'', ''Object.prototype''],
      extensible = True\<rparr>"

definition pristine :: shared_objects where
  "pristine r =
     (if r = ''Object.prototype'' then
        \<lparr>props = [''constructor'' \<mapsto> Data (Shared ''Object'') True,
                  ''__proto__'' \<mapsto> ProtoAccessor,
                  ''hasOwnProperty'' \<mapsto> Data (Shared ''Object.prototype.hasOwnProperty'') True,
                  ''isPrototypeOf'' \<mapsto> Data (Shared ''Object.prototype.isPrototypeOf'') True,
                  ''propertyIsEnumerable'' \<mapsto>
                     Data (Shared ''Object.prototype.propertyIsEnumerable'') True,
                  ''toLocaleString'' \<mapsto> Data (Shared ''Object.prototype.toLocaleString'') True,
                  ''toString'' \<mapsto> Data (Shared ''Object.prototype.toString'') True,
                  ''valueOf'' \<mapsto> Data (Shared ''Object.prototype.valueOf'') True,
                  ''__defineGetter__'' \<mapsto> Data (Shared ''Object.prototype.__defineGetter__'') True,
                  ''__defineSetter__'' \<mapsto> Data (Shared ''Object.prototype.__defineSetter__'') True,
                  ''__lookupGetter__'' \<mapsto> Data (Shared ''Object.prototype.__lookupGetter__'') True,
                  ''__lookupSetter__'' \<mapsto> Data (Shared ''Object.prototype.__lookupSetter__'') True],
         protoChain = [],
         extensible = True\<rparr>
      else if r = ''Function.prototype'' then
        \<lparr>props = [''constructor'' \<mapsto> Data (Shared ''Function'') True,
                  ''apply'' \<mapsto> Data (Shared ''Function.prototype.apply'') True,
                  ''bind'' \<mapsto> Data (Shared ''Function.prototype.bind'') True,
                  ''call'' \<mapsto> Data (Shared ''Function.prototype.call'') True,
                  ''toString'' \<mapsto> Data (Shared ''Function.prototype.toString'') True,
                  ''name'' \<mapsto> Data (Primitive ''String.prototype'' False) False,
                  ''length'' \<mapsto> Data (Primitive ''Number.prototype'' False) False,
                  ''caller'' \<mapsto> Throwing,
                  ''arguments'' \<mapsto> Throwing],
         protoChain = [''Object.prototype''],
         extensible = True\<rparr>
      else if r = ''Boolean.prototype'' then
        \<lparr>props = [''constructor'' \<mapsto> Data (Shared ''Boolean'') True,
                  ''toString'' \<mapsto> Data (Shared ''Boolean.prototype.toString'') True,
                  ''valueOf'' \<mapsto> Data (Shared ''Boolean.prototype.valueOf'') True],
         protoChain = [''Object.prototype''],
         extensible = True\<rparr>
      else if r = ''Object'' then
        \<lparr>props = [''name'' \<mapsto> Data (Primitive ''String.prototype'' True) False,
                  ''length'' \<mapsto> Data (Primitive ''Number.prototype'' True) False,
                  ''prototype'' \<mapsto> Data (Shared ''Object.prototype'') False,
                  ''assign'' \<mapsto> Data (Shared ''Object.assign'') True,
                  ''create'' \<mapsto> Data (Shared ''Object.create'') True,
                  ''defineProperty'' \<mapsto> Data (Shared ''Object.defineProperty'') True,
                  ''entries'' \<mapsto> Data (Shared ''Object.entries'') True,
                  ''freeze'' \<mapsto> Data (Shared ''Object.freeze'') True,
                  ''getPrototypeOf'' \<mapsto> Data (Shared ''Object.getPrototypeOf'') True,
                  ''keys'' \<mapsto> Data (Shared ''Object.keys'') True,
                  ''values'' \<mapsto> Data (Shared ''Object.values'') True],
         protoChain = [''Function.prototype'', ''Object.prototype''],
         extensible = True\<rparr>
      else if r \<in> {''Object.prototype.toString'', ''Object.prototype.valueOf'',
                    ''Object.prototype.toLocaleString'', ''Function.prototype.toString'',
                    ''Boolean.prototype.toString'', ''Boolean.prototype.valueOf''}
      then builtinFunction False
      else builtinFunction True)"

definition sampleEnv :: "(api_error + string) \<Rightarrow> (api_error + unit) \<Rightarrow> env" where
  "sampleEnv getAnswer postAnswer =
     \<lparr>bold = (\<lambda>s. s),
      urlHostname = sampleHostname,
      isBillingError = (\<lambda>e. ''billing'' \<in> set (details e)),
      apiGet = (\<lambda>tr path. getAnswer),
      apiPost = (\<lambda>tr path. postAnswer),
      typeErrorText = (\<lambda>n. ''Cannot access property '' @ n)\<rparr>"

definition emptyWorld :: world where
  "emptyWorld = \<lparr>configstore = None, trace = [], shared = pristine\<rparr>"

section \<open>Basic facts about the model\<close>

lemma trace_emit [simp]: "trace (emit e w) = trace w @ [e]"
  by (simp add: emit_def)

lemma configstore_emit [simp]: "configstore (emit e w) = configstore w"
  by (simp add: emit_def)

lemma shared_emit [simp]: "shared (emit e w) = shared w"
  by (simp add: emit_def)

lemma snd_checkAPIEnablementCache [simp]:
  "snd (checkAPIEnablementCache p a w) = emit ConfigGet w"
  by (cases "configstore w")
     (simp_all add: checkAPIEnablementCache_def Let_def split: sum.splits)



lemma check_invalid:
  "apiNameOf env u = Inl e \<Longrightarrow> check env p u pre silent w = (Inl e, w)"
  by (simp add: check_def)


lemma apiNameOf_plain: "\<not> startsWith u ''http'' \<Longrightarrow> apiNameOf env u = Inr u"
  by (simp add: apiNameOf_def)

lemma apiNameOf_url:
  "startsWith u ''http'' \<Longrightarrow> urlHostname env u = Some h \<Longrightarrow> apiNameOf env u = Inr h"
  by (simp add: apiNameOf_def)

lemma apiNameOf_unparseable:
  "startsWith u ''http'' \<Longrightarrow> urlHostname env u = None \<Longrightarrow> apiNameOf env u = Inl (InvalidURL u)"
  by (simp add: apiNameOf_def)

lemma ensure_invalid:
  "apiNameOf env u = Inl e \<Longrightarrow> ensure env p u pre silent w = (Inl e, w)"
  by (simp add: ensure_def)

lemma bestEffortEnsure_unfold:
  "bestEffortEnsure env p u pre silent w =
     (Inr (),
      (case fst (ensure env p u pre silent w) of
         Inl err \<Rightarrow> emit (LogDebug (''Unable to check that '' @ u @ '' is enabled on ''
                      @ p @ ''. Calls to it will fail if it is not enabled''))
                     (snd (ensure env p u pre silent w))
       | Inr x \<Rightarrow> snd (ensure env p u pre silent w)))"
  by (simp add: bestEffortEnsure_def split: prod.splits sum.splits)

lemma enable_failed:
  "apiPost env (trace w) (servicePath p a @ '':enable'') = Inl err \<Longrightarrow>
   enable env p a w =
     (if isBillingError env err
      then (Inl (FirebaseError (billingMessage env p a)), emit (HttpPost p a (Inl err)) w)
      else if isPermissionError err
      then (case regexExec (message err) of
              Some serviceUrl \<Rightarrow>
                if serviceUrl \<noteq> []
                then (Inl (ClientError (err\<lparr>message := permissionMessage p serviceUrl\<rparr>)),
                      emit (HttpPost p a (Inl err)) w)
                else (Inl (ClientError err), emit (HttpPost p a (Inl err)) w)
            | None \<Rightarrow> (Inl (ClientError err), emit (HttpPost p a (Inl err)) w))
      else (Inl (ClientError err), emit (HttpPost p a (Inl err)) w))"
  by (simp add: enable_def Let_def errorObject_def withMessage_def split: option.splits)

lemma enable_failed_world:
  "apiPost env (trace w) (servicePath p a @ '':enable'') = Inl err \<Longrightarrow>
   snd (enable env p a w) = emit (HttpPost p a (Inl err)) w"
  by (simp add: enable_failed split: option.splits)

lemma sublist_enableApiURI: "sublist (enableApiURI p x) (permissionMessage p x)"
proof -
  have "permissionMessage p x =
          (''Permissions denied enabling '' @ x @ ''.'' @ newline
           @ ''        Please ask a project owner to visit the following URL to enable this service:''
           @ newline @ ''        '' @ newline @ ''        '') @ enableApiURI p x"
    by (simp add: permissionMessage_def enableApiURI_def)
  then show ?thesis
    by (metis sublist_append_leftI)
qed

subsection \<open>The regular expression\<close>

lemma stripPrefix_Some: "stripPrefix p s = Some r \<longleftrightarrow> s = p @ r"
  by (induction p s rule: stripPrefix.induct) auto

lemma not_inClass_bracket: "\<not> inClass CHR '']''"
  by (simp add: inClass_def)

lemma matchHere_Some:
  "matchHere s = Some x \<longleftrightarrow>
     (x \<noteq> [] \<and> list_all inClass x \<and> (\<exists>post. s = deniedLiteral @ x @ '']'' @ post))"
proof
  assume m: "matchHere s = Some x"
  then obtain rest where r: "stripPrefix deniedLiteral s = Some rest"
    by (auto simp: matchHere_def split: option.splits)
  from m r have x: "x = takeWhile inClass rest" and ne: "x \<noteq> []"
    and b: "startsWith (dropWhile inClass rest) '']''"
    by (auto simp: matchHere_def Let_def split: if_splits)
  from b obtain post where d: "dropWhile inClass rest = CHR '']'' # post"
    by (cases "dropWhile inClass rest") (auto simp: startsWith_def)
  have "rest = x @ '']'' @ post"
    using takeWhile_dropWhile_id [of inClass rest] x d by simp
  moreover have "list_all inClass x"
    unfolding x list_all_iff by (auto dest: set_takeWhileD)
  ultimately show "x \<noteq> [] \<and> list_all inClass x \<and> (\<exists>post. s = deniedLiteral @ x @ '']'' @ post)"
    using ne r by (auto simp: stripPrefix_Some)
next
  assume "x \<noteq> [] \<and> list_all inClass x \<and> (\<exists>post. s = deniedLiteral @ x @ '']'' @ post)"
  then obtain post where ne: "x \<noteq> []" and cl: "list_all inClass x"
    and s: "s = deniedLiteral @ x @ '']'' @ post"
    by blast
  have r: "stripPrefix deniedLiteral s = Some (x @ '']'' @ post)"
    by (simp add: stripPrefix_Some s)
  have t: "takeWhile inClass (x @ '']'' @ post) = x"
    using cl not_inClass_bracket by (simp add: takeWhile_append2 list_all_iff)
  have d: "dropWhile inClass (x @ '']'' @ post) = '']'' @ post"
    using cl not_inClass_bracket by (simp add: dropWhile_append2 list_all_iff)
  show "matchHere s = Some x"
    unfolding matchHere_def r using ne by (simp add: t d startsWith_def del: append.simps)
qed

lemma deniedAt_matchHere:
  "deniedAt msg i x \<longleftrightarrow> i \<le> length msg \<and> matchHere (drop i msg) = Some x"
  by (auto simp: deniedAt_def matchHere_Some)

lemma regexExec_None:
  "regexExec s = None \<longleftrightarrow> (\<forall>i\<le>length s. matchHere (drop i s) = None)"
proof (induction s)
  case Nil
  then show ?case by simp
next
  case (Cons c cs)
  have "(\<forall>i\<le>length (c # cs). matchHere (drop i (c # cs)) = None)
          \<longleftrightarrow> matchHere (c # cs) = None \<and> (\<forall>i\<le>length cs. matchHere (drop i cs) = None)"
    (is "?L \<longleftrightarrow> ?R")
  proof
    assume l: ?L
    have "matchHere (drop 0 (c # cs)) = None"
      using l by blast
    moreover have "matchHere (drop i cs) = None" if "i \<le> length cs" for i
      using l [rule_format, of "Suc i"] that by simp
    ultimately show ?R by simp
  next
    assume r: ?R
    show ?L
    proof (intro allI impI)
      fix i assume "i \<le> length (c # cs)"
      then show "matchHere (drop i (c # cs)) = None"
        using r by (cases i) auto
    qed
  qed
  then show ?case
    using Cons.IH by (simp split: option.splits)
qed

lemma regexExec_Some:
  "regexExec s = Some x \<longleftrightarrow>
     (\<exists>i\<le>length s. matchHere (drop i s) = Some x \<and> (\<forall>j<i. matchHere (drop j s) = None))"
proof (induction s)
  case Nil
  then show ?case by simp
next
  case (Cons c cs)
  show ?case
  proof (cases "matchHere (c # cs)")
    case (Some y)
    have "(\<exists>i\<le>length (c # cs). matchHere (drop i (c # cs)) = Some x
             \<and> (\<forall>j<i. matchHere (drop j (c # cs)) = None)) \<longleftrightarrow> y = x"
    proof
      assume "\<exists>i\<le>length (c # cs). matchHere (drop i (c # cs)) = Some x
                \<and> (\<forall>j<i. matchHere (drop j (c # cs)) = None)"
      then obtain i where i: "matchHere (drop i (c # cs)) = Some x"
        and m: "\<forall>j<i. matchHere (drop j (c # cs)) = None"
        by blast
      have "i = 0"
      proof (rule ccontr)
        assume "i \<noteq> 0"
        then have "matchHere (drop 0 (c # cs)) = None"
          using m by blast
        then show False using Some by simp
      qed
      then show "y = x" using i Some by simp
    next
      assume "y = x"
      then have "matchHere (drop 0 (c # cs)) = Some x \<and> (\<forall>j<0. matchHere (drop j (c # cs)) = None)"
        using Some by simp
      then show "\<exists>i\<le>length (c # cs). matchHere (drop i (c # cs)) = Some x
                   \<and> (\<forall>j<i. matchHere (drop j (c # cs)) = None)"
        by blast
    qed
    then show ?thesis
      using Some by simp
  next
    case None
    have "(\<exists>i\<le>length (c # cs). matchHere (drop i (c # cs)) = Some x
             \<and> (\<forall>j<i. matchHere (drop j (c # cs)) = None))
          \<longleftrightarrow> (\<exists>i\<le>length cs. matchHere (drop i cs) = Some x
             \<and> (\<forall>j<i. matchHere (drop j cs) = None))"
      (is "?L \<longleftrightarrow> ?R")
    proof
      assume ?L
      then obtain i where le: "i \<le> length (c # cs)"
        and i: "matchHere (drop i (c # cs)) = Some x"
        and m: "\<forall>j<i. matchHere (drop j (c # cs)) = None"
        by blast
      from i None obtain k where k: "i = Suc k"
        by (cases i) auto
      have "matchHere (drop j cs) = None" if "j < k" for j
        using m [rule_format, of "Suc j"] that k by simp
      then show ?R
        using le i k by auto
    next
      assume ?R
      then obtain k where le: "k \<le> length cs"
        and i: "matchHere (drop k cs) = Some x"
        and m: "\<forall>j<k. matchHere (drop j cs) = None"
        by blast
      have "matchHere (drop j (c # cs)) = None" if "j < Suc k" for j
        using that m None by (cases j) auto
      then have "Suc k \<le> length (c # cs) \<and> matchHere (drop (Suc k) (c # cs)) = Some x
                  \<and> (\<forall>j<Suc k. matchHere (drop j (c # cs)) = None)"
        using le i by simp
      then show ?L by blast
    qed
    then show ?thesis
      using None Cons.IH by simp
  qed
qed

lemma regexExec_firstDenied: "regexExec msg = Some x \<longleftrightarrow> firstDenied msg x"
proof
  assume "regexExec msg = Some x"
  then obtain i where le: "i \<le> length msg" and i: "matchHere (drop i msg) = Some x"
    and m: "\<forall>j<i. matchHere (drop j msg) = None"
    unfolding regexExec_Some by blast
  have "deniedAt msg i x"
    using le i by (simp add: deniedAt_matchHere)
  moreover have "\<not> deniedAt msg j y" if "j < i" for j y
    using m that by (simp add: deniedAt_matchHere)
  ultimately show "firstDenied msg x"
    unfolding firstDenied_def by blast
next
  assume "firstDenied msg x"
  then obtain i where d: "deniedAt msg i x" and m: "\<forall>j y. j < i \<longrightarrow> \<not> deniedAt msg j y"
    unfolding firstDenied_def by blast
  have le: "i \<le> length msg" and i: "matchHere (drop i msg) = Some x"
    using d by (simp_all add: deniedAt_matchHere)
  have "matchHere (drop j msg) = None" if "j < i" for j
  proof (cases "matchHere (drop j msg)")
    case None
    then show ?thesis .
  next
    case (Some y)
    then have "deniedAt msg j y"
      using that le by (simp add: deniedAt_matchHere)
    then show ?thesis using m that by blast
  qed
  then show "regexExec msg = Some x"
    unfolding regexExec_Some using le i by blast
qed

lemma regexExec_no_match: "regexExec msg = None \<longleftrightarrow> (\<forall>i x. \<not> deniedAt msg i x)"
  unfolding regexExec_None deniedAt_matchHere by auto

lemma firstDenied_nonempty: "firstDenied msg x \<Longrightarrow> x \<noteq> []"
  by (auto simp: firstDenied_def deniedAt_def)

lemma deniedAt_patternAt: "deniedAt msg i x \<Longrightarrow> patternAt msg i x"
  using not_inClass_bracket by (auto simp: deniedAt_def patternAt_def list_all_iff)

lemma patternAt_deniedAt:
  "patternAt msg i x \<Longrightarrow> x \<noteq> [] \<Longrightarrow> list_all inClass x \<Longrightarrow> deniedAt msg i x"
  by (auto simp: deniedAt_def patternAt_def)

lemma firstPattern_firstDenied:
  assumes "firstPattern msg x" and "x \<noteq> []" and "list_all inClass x"
  shows "firstDenied msg x"
proof -
  from assms(1) obtain i where p: "patternAt msg i x"
    and m: "\<forall>j y. j < i \<longrightarrow> \<not> patternAt msg j y"
    unfolding firstPattern_def by blast
  have "deniedAt msg i x"
    using p assms(2,3) by (rule patternAt_deniedAt)
  moreover have "\<not> deniedAt msg j y" if "j < i" for j y
    using m that deniedAt_patternAt by blast
  ultimately show ?thesis
    unfolding firstDenied_def by blast
qed

lemma patternAt_bracket: "patternAt msg i x \<Longrightarrow> CHR '']'' \<in> set msg"
proof -
  assume "patternAt msg i x"
  then obtain post where "drop i msg = deniedLiteral @ x @ '']'' @ post"
    unfolding patternAt_def by blast
  then have "CHR '']'' \<in> set (drop i msg)"
    by simp
  then show ?thesis
    by (rule in_set_dropD)
qed

subsection \<open>The entries of the store\<close>

text \<open>
  The store itself only gains entries: whatever an operation of the module does, and
  whether it returns or throws, an entry of the stored mapping is afterwards what it was
  or \<open>true\<close>. (Where the assignment goes when the project id is not an own property of
  the cache is another matter.)
\<close>

lemma falsy_target_not_own:
  assumes "getOuter sh c p = Inr t" and "\<not> truthyTarget t"
  shows "c p = None \<and> (\<forall>h. findSlot sh (chainOf sh PlainObject) p \<noteq> Some (h, ProtoAccessor))"
proof (cases "c p")
  case (Some r)
  then show ?thesis using assms by (auto simp: getOuter_def truthyTarget_def)
next
  case None
  have "findSlot sh (chainOf sh PlainObject) p \<noteq> Some (h, ProtoAccessor)" for h
  proof
    assume "findSlot sh (chainOf sh PlainObject) p = Some (h, ProtoAccessor)"
    then have "getOuter sh c p = Inr (Value (Shared objectPrototype))"
      using None by (simp add: getOuter_def getInherited_def prototypeOf_def)
    then show False
      using assms by (simp add: truthyTarget_def truthy_def)
  qed
  then show ?thesis using None by simp
qed

lemma assignOuterEmpty_result:
  "assignOuterEmpty sh c p = Inr c1 \<Longrightarrow> c1 = c \<or> c1 = c(p \<mapsto> Map.empty)"
  by (auto simp: assignOuterEmpty_def split: option.splits slot.splits if_splits)

lemma assignPlain_result:
  "assignPlain sh r a = Inr r' \<Longrightarrow> r' = r \<or> r' = r(a \<mapsto> True)"
  by (auto simp: assignPlain_def split: option.splits slot.splits if_splits)

lemma getOuter_Inner: "getOuter sh c p = Inr (Inner r) \<Longrightarrow> c p = Some r"
  by (auto simp: getOuter_def split: option.splits sum.splits)

lemma entriesKept_refl: "entriesKept s s"
  by (simp add: entriesKept_def)

lemma entriesKept_trans: "entriesKept s s1 \<Longrightarrow> entriesKept s1 s2 \<Longrightarrow> entriesKept s s2"
  unfolding entriesKept_def by metis

lemma entriesKept_cacheEnabledAPI:
  "entriesKept (configstore w) (configstore (snd (cacheEnabledAPI p a w)))"
proof -
  define cache where "cache = (case configstore w of None \<Rightarrow> Map.empty | Some c \<Rightarrow> c)"
  define w1 where "w1 = emit ConfigGet w"
  define sh where "sh = shared w"
  have s1: "configstore w1 = configstore w"
    by (simp add: w1_def)
  have base: "entry (Some cache) p' a' = entry (configstore w) p' a'" for p' a'
    by (simp add: cache_def entry_def split: option.splits)
  note unf = cacheEnabledAPI_def [of p a w, unfolded Let_def, folded cache_def w1_def sh_def]
  show ?thesis
  proof (cases "getOuter sh cache p")
    case (Inl e)
    then show ?thesis unfolding unf by (simp add: s1 entriesKept_refl)
  next
    case t0: (Inr t0)
    show ?thesis
    proof (cases "if \<not> truthyTarget t0 then assignOuterEmpty sh cache p else Inr cache")
      case (Inl e)
      then show ?thesis unfolding unf using t0 by (simp add: s1 entriesKept_refl)
    next
      case c1: (Inr cache1)
      have "cache1 = cache \<or> (cache p = None \<and> cache1 = cache(p \<mapsto> Map.empty))"
      proof (cases "truthyTarget t0")
        case True
        then show ?thesis using c1 by simp
      next
        case False
        then have "cache p = None"
          using falsy_target_not_own [OF t0] by simp
        moreover have "cache1 = cache \<or> cache1 = cache(p \<mapsto> Map.empty)"
          using c1 False by (simp add: assignOuterEmpty_result)
        ultimately show ?thesis by blast
      qed
      then have k1: "entry (Some cache1) p' a' = entry (configstore w) p' a'" for p' a'
        using base [of p' a'] by (auto simp: entry_def)
      show ?thesis
      proof (cases "getOuter sh cache1 p")
        case (Inl e)
        then show ?thesis unfolding unf using t0 c1 by (simp add: s1 entriesKept_refl)
      next
        case t: (Inr t)
        show ?thesis
        proof (cases t)
          case (Inner r)
          have own: "cache1 p = Some r"
            using t Inner by (simp add: getOuter_Inner)
          show ?thesis
          proof (cases "assignPlain sh r a")
            case (Inl e)
            then show ?thesis
              unfolding unf using t0 c1 t Inner by (simp add: s1 entriesKept_refl)
          next
            case (Inr r')
            then have r': "r' = r \<or> r' = r(a \<mapsto> True)"
              by (rule assignPlain_result)
            have "entry (Some (cache1(p \<mapsto> r'))) p' a' = entry (configstore w) p' a'
                    \<or> entry (Some (cache1(p \<mapsto> r'))) p' a' = Some True" for p' a'
              using k1 [of p' a'] own r' by (auto simp: entry_def split: if_splits)
            then show ?thesis
              unfolding unf using t0 c1 t Inner Inr by (simp add: entriesKept_def)
          qed
        next
          case (Value v)
          have kept: "entriesKept (configstore w) (Some cache1)"
            using k1 by (simp add: entriesKept_def)
          show ?thesis
          proof (cases v)
            case Undefined
            then show ?thesis
              unfolding unf using t0 c1 t Value by (simp add: s1 entriesKept_refl)
          next
            case Null
            then show ?thesis
              unfolding unf using t0 c1 t Value by (simp add: s1 entriesKept_refl)
          next
            case (Primitive wr tv)
            then show ?thesis
              unfolding unf using t0 c1 t Value kept
              by (cases "assignPrimitive sh wr a") (simp_all add: s1 entriesKept_refl)
          next
            case (Shared r)
            then show ?thesis
              unfolding unf using t0 c1 t Value kept
              by (cases "assignShared sh r a") (simp_all add: s1 entriesKept_refl)
          qed
        qed
      qed
    qed
  qed
qed

lemma entriesKept_check:
  "entriesKept (configstore w) (configstore (snd (check env p u pre silent w)))"
proof (cases "apiNameOf env u")
  case (Inl e)
  then show ?thesis by (simp add: check_invalid entriesKept_refl)
next
  case (Inr a)
  obtain c w1 where c: "checkAPIEnablementCache p a w = (c, w1)"
    by (cases "checkAPIEnablementCache p a w")
  then have w1: "w1 = emit ConfigGet w"
    using snd_checkAPIEnablementCache [of p a w] by simp
  have t1: "configstore w1 = configstore w"
    by (simp add: w1)
  show ?thesis
  proof (cases c)
    case (Inl e)
    then show ?thesis using Inr c t1 by (simp add: check_def entriesKept_refl)
  next
    case cached: (Inr b)
    show ?thesis
    proof (cases b)
      case True
      then show ?thesis using Inr c cached t1 by (simp add: check_def entriesKept_refl)
    next
      case False
      let ?res = "apiGet env (trace w1) (servicePath p a)"
      let ?w2 = "emit (HttpGet p a ?res) w1"
      show ?thesis
      proof (cases ?res)
        case (Inl err)
        then show ?thesis
          using Inr c cached False t1 by (simp add: check_def Let_def entriesKept_refl)
      next
        case st: (Inr state)
        show ?thesis
        proof (cases "state = ''ENABLED''")
          case ne: False
          then show ?thesis
            using Inr c cached False st t1 by (simp add: check_def Let_def entriesKept_refl)
        next
          case en: True
          let ?w3 = "if \<not> silent
                     then emit (LogSuccess pre (''required API '' @ bold env a @ '' is enabled'')) ?w2
                     else ?w2"
          have t3: "configstore ?w3 = configstore w"
            using t1 by simp
          obtain r w4 where k: "cacheEnabledAPI p a ?w3 = (r, w4)"
            by (cases "cacheEnabledAPI p a ?w3")
          have t4: "entriesKept (configstore w) (configstore w4)"
            using entriesKept_cacheEnabledAPI [of ?w3 p a] k t3 by simp
          have "snd (check env p u pre silent w) = w4"
            using Inr c cached False st en k
            by (cases r) (simp_all add: check_def Let_def)
          then show ?thesis using t4 by simp
        qed
      qed
    qed
  qed
qed

lemma entriesKept_enable:
  "entriesKept (configstore w) (configstore (snd (enable env p a w)))"
proof (cases "apiPost env (trace w) (servicePath p a @ '':enable'')")
  case (Inl err)
  then show ?thesis by (simp add: enable_failed_world entriesKept_refl)
next
  case (Inr u)
  let ?w1 = "emit (HttpPost p a (Inr u)) w"
  obtain r w2 where k: "cacheEnabledAPI p a ?w1 = (r, w2)"
    by (cases "cacheEnabledAPI p a ?w1")
  have "entriesKept (configstore w) (configstore w2)"
    using entriesKept_cacheEnabledAPI [of ?w1 p a] k by simp
  moreover have "snd (enable env p a w) = w2"
    using Inr k by (cases r) (simp_all add: enable_def Let_def split: option.splits)
  ultimately show ?thesis by simp
qed

lemma entriesKept_poll_enableApiWithRetries:
  "entriesKept (configstore w) (configstore (snd (pollCheckEnabled env p a pre silent r q w)))"
  "entriesKept (configstore w) (configstore (snd (enableApiWithRetries env p a pre silent r w)))"
proof (induction env p a pre silent r q w and env p a pre silent r w
       rule: pollCheckEnabled_enableApiWithRetries.induct)
  case (1 env p a pre silent r q w)
  note unf = pollCheckEnabled.simps [of env p a pre silent r q w]
  show ?case
  proof (cases "q > pollsBeforeRetry")
    case True
    then show ?thesis using "1.IH"(1) by (simp add: unf)
  next
    case False
    let ?w1 = "emit (Sleep pollInterval) w"
    obtain res w2 where c: "check env p a pre silent ?w1 = (res, w2)"
      by (cases "check env p a pre silent ?w1")
    have s2: "entriesKept (configstore w) (configstore w2)"
      using entriesKept_check [of ?w1 env p a pre silent] c by simp
    show ?thesis
    proof (cases res)
      case (Inl e)
      then show ?thesis using False c s2 by (simp add: unf)
    next
      case (Inr isEnabled)
      show ?thesis
      proof (cases isEnabled)
        case True
        then show ?thesis using False c Inr s2 by (simp add: unf)
      next
        case ne: False
        let ?w3 = "if \<not> silent
                   then emit (LogBullet pre (''waiting for API '' @ bold env a @ '' to activate...'')) w2
                   else w2"
        have s3: "entriesKept (configstore w) (configstore ?w3)"
          using s2 by simp
        have "entriesKept (configstore ?w3)
                (configstore (snd (pollCheckEnabled env p a pre silent r (q + 1) ?w3)))"
          using "1.IH"(2) [OF False refl c [symmetric] Inr ne refl] .
        then have "entriesKept (configstore w)
                     (configstore (snd (pollCheckEnabled env p a pre silent r (q + 1) ?w3)))"
          using s3 by (rule entriesKept_trans [rotated])
        then show ?thesis using False c Inr ne by (simp add: unf Let_def)
      qed
    qed
  qed
next
  case (2 env p a pre silent r w)
  note unf = enableApiWithRetries.simps [of env p a pre silent r w]
  show ?case
  proof (cases "r > 1")
    case True
    then show ?thesis by (simp add: unf entriesKept_refl)
  next
    case False
    obtain res w1 where e: "enable env p a w = (res, w1)"
      by (cases "enable env p a w")
    have s1: "entriesKept (configstore w) (configstore w1)"
      using entriesKept_enable [of w env p a] e by simp
    show ?thesis
    proof (cases res)
      case (Inl err)
      then show ?thesis using False e s1 by (simp add: unf)
    next
      case (Inr u)
      have "entriesKept (configstore w1)
              (configstore (snd (pollCheckEnabled env p a pre silent r 0 w1)))"
        using "2.IH" [OF False e [symmetric] Inr] .
      then have "entriesKept (configstore w)
                   (configstore (snd (pollCheckEnabled env p a pre silent r 0 w1)))"
        using s1 by (rule entriesKept_trans [rotated])
      then show ?thesis using False e Inr by (simp add: unf)
    qed
  qed
qed

lemma entriesKept_ensure:
  "entriesKept (configstore w) (configstore (snd (ensure env p u pre silent w)))"
proof (cases "apiNameOf env u")
  case (Inl e)
  then show ?thesis by (simp add: ensure_invalid entriesKept_refl)
next
  case (Inr h)
  let ?w1 = "if \<not> silent
             then emit (LogBullet pre (''ensuring required API '' @ bold env h @ '' is enabled...'')) w
             else w"
  obtain res w2 where c: "check env p h pre silent ?w1 = (res, w2)"
    by (cases "check env p h pre silent ?w1")
  have "configstore ?w1 = configstore w"
    by simp
  then have s2: "entriesKept (configstore w) (configstore w2)"
    using entriesKept_check [of ?w1 env p h pre silent] c by simp
  show ?thesis
  proof (cases res)
    case (Inl e)
    then show ?thesis using Inr c s2 by (simp add: ensure_def)
  next
    case isE: (Inr isEnabled)
    show ?thesis
    proof (cases isEnabled)
      case True
      then show ?thesis using Inr c isE s2 by (simp add: ensure_def)
    next
      case False
      let ?w3 = "if \<not> silent
                 then emit (LogWarning pre (''missing required API '' @ bold env h
                        @ ''. Enabling now...'')) w2
                 else w2"
      have s3: "entriesKept (configstore w) (configstore ?w3)"
        using s2 by simp
      have "entriesKept (configstore ?w3)
              (configstore (snd (enableApiWithRetries env p h pre silent 0 ?w3)))"
        by (rule entriesKept_poll_enableApiWithRetries)
      then have "entriesKept (configstore w)
                   (configstore (snd (enableApiWithRetries env p h pre silent 0 ?w3)))"
        using s3 by (rule entriesKept_trans [rotated])
      then show ?thesis using Inr c isE False by (simp add: ensure_def Let_def)
    qed
  qed
qed

lemma entriesKept_bestEffortEnsure:
  "entriesKept (configstore w) (configstore (snd (bestEffortEnsure env p u pre silent w)))"
  using entriesKept_ensure [of w env p u pre silent]
  by (simp add: bestEffortEnsure_unfold split: sum.splits)

section \<open>The claims\<close>

lemmas eval_defs =
  ensure_def check_def checkAPIEnablementCache_def cacheEnabledAPI_def entry_def sampleEnv_def
  apiNameOf_def startsWith_def emptyWorld_def emit_def enableApiWithRetries.simps
  pollCheckEnabled.simps enable_def Let_def pollsBeforeRetry_def pollInterval_def
  getOuter_def getInner_def getInherited_def chainOf_def prototypeOf_def truthy_def
  truthyTarget_def assignOuterEmpty_def assignPlain_def assignShared_def assignPrimitive_def
  defineTrue_def jsBool_def objectPrototype_def booleanPrototype_def pristine_def
  builtinFunction_def errorObject_def withMessage_def isPermissionError_def

lemmas sample_defs =
  sampleEnv_def sampleHostname_def hostOf_def hostChar_def startsWith_def emptyWorld_def

text \<open>
  C1. The claim (a store entry is written only after a status query for the pair has
  answered \<^verbatim>\<open>ENABLED\<close>, and on no other evidence) does not hold of the code: \<^verbatim>\<open>enable\<close>
  calls \<^verbatim>\<open>cacheEnabledAPI\<close> as soon as the enable request resolves. With a service that
  answers every status query \<^verbatim>\<open>DISABLED\<close> and accepts the enable request, \<^verbatim>\<open>ensure\<close> on an
  empty store ends with the entry for the pair set, and no status query in the whole
  trace has answered \<^verbatim>\<open>ENABLED\<close>.
\<close>

theorem cache_written_without_enabled_report:
  "entry (configstore emptyWorld) ''p1'' ''foo.googleapis.com'' = None
   \<and> entry (configstore (snd (ensure (sampleEnv (Inr ''DISABLED'') (Inr ()))
         ''p1'' ''foo.googleapis.com'' ''pre'' True emptyWorld))) ''p1'' ''foo.googleapis.com''
       = Some True
   \<and> \<not> list_ex (reportedEnabled ''p1'' ''foo.googleapis.com'')
         (trace (snd (ensure (sampleEnv (Inr ''DISABLED'') (Inr ()))
            ''p1'' ''foo.googleapis.com'' ''pre'' True emptyWorld)))"
  by (simp add: eval_defs reportedEnabled_def)

text \<open>
  C2. The claim does not hold of the code. \<^verbatim>\<open>enable\<close> writes the store entry as soon as
  the enable request resolves, and the \<^verbatim>\<open>check\<close> that \<^verbatim>\<open>pollCheckEnabled\<close> makes after
  its wait reads that entry and answers \<open>true\<close> without a status query. With a service
  that never reports the API enabled and accepts the enable request,
  \<^verbatim>\<open>enableApiWithRetries\<close> from \<open>enablementRetries = 0\<close> issues one enable request and no
  status query, and returns normally; no timeout error is raised.
\<close>

theorem enableApiWithRetries_returns_without_polling:
  "fst (enableApiWithRetries (sampleEnv (Inr ''DISABLED'') (Inr ()))
          ''p1'' ''foo.googleapis.com'' ''pre'' True 0 emptyWorld) = Inr ()
   \<and> trace (snd (enableApiWithRetries (sampleEnv (Inr ''DISABLED'') (Inr ()))
          ''p1'' ''foo.googleapis.com'' ''pre'' True 0 emptyWorld))
       = [HttpPost ''p1'' ''foo.googleapis.com'' (Inr ()), ConfigGet,
          ConfigSet ''p1'' ''foo.googleapis.com'', Sleep 10000, ConfigGet,
          TrackGA4 ''api_enabled'' ''foo.googleapis.com'']"
  by (simp add: eval_defs)

text \<open>
  C3. The claim (for every pair with a cached entry \<^verbatim>\<open>check\<close> returns true without a
  request; on a miss it returns whether the status query answered \<^verbatim>\<open>ENABLED\<close>) does not
  hold of the code for a service name that starts with \<^verbatim>\<open>http\<close>: \<^verbatim>\<open>check\<close> hands such a
  name to the URL constructor first. After \<^verbatim>\<open>check\<close> on \<^verbatim>\<open>https://httpbin.googleapis.com\<close>
  has cached the pair \<^verbatim>\<open>(p1, httpbin.googleapis.com)\<close>, \<^verbatim>\<open>check\<close> on
  \<^verbatim>\<open>httpbin.googleapis.com\<close> throws.
\<close>

theorem check_cached_name_throws:
  "entry (configstore (snd (check (sampleEnv (Inr ''ENABLED'') (Inr ()))
       ''p1'' ''https://httpbin.googleapis.com'' ''pre'' True emptyWorld)))
     ''p1'' ''httpbin.googleapis.com'' = Some True
   \<and> fst (check (sampleEnv (Inr ''ENABLED'') (Inr ())) ''p1'' ''httpbin.googleapis.com'' ''pre'' True
       (snd (check (sampleEnv (Inr ''ENABLED'') (Inr ()))
          ''p1'' ''https://httpbin.googleapis.com'' ''pre'' True emptyWorld)))
     = Inl (InvalidURL ''httpbin.googleapis.com'')"
  by (simp add: eval_defs sample_defs)

text \<open>
  A second way in which the code departs from the same claim: a name that the prototype
  chain answers counts as cached. With a store that holds a record for \<^verbatim>\<open>p1\<close> but no entry
  for \<^verbatim>\<open>(p1, constructor)\<close>, and a service that would answer \<^verbatim>\<open>DISABLED\<close>, \<^verbatim>\<open>check\<close> returns
  \<open>true\<close> after reading the store, without a status query.
\<close>

lemma check_inherited_name_counts_as_cached:
  "entry (configstore (snd (check (sampleEnv (Inr ''ENABLED'') (Inr ()))
       ''p1'' ''foo.googleapis.com'' ''pre'' True emptyWorld))) ''p1'' ''constructor'' = None
   \<and> fst (check (sampleEnv (Inr ''DISABLED'') (Inr ())) ''p1'' ''constructor'' ''pre'' True
       (snd (check (sampleEnv (Inr ''ENABLED'') (Inr ()))
          ''p1'' ''foo.googleapis.com'' ''pre'' True emptyWorld))) = Inr True
   \<and> trace (snd (check (sampleEnv (Inr ''DISABLED'') (Inr ())) ''p1'' ''constructor'' ''pre'' True
       (snd (check (sampleEnv (Inr ''ENABLED'') (Inr ()))
          ''p1'' ''foo.googleapis.com'' ''pre'' True emptyWorld))))
     = [ConfigGet, HttpGet ''p1'' ''foo.googleapis.com'' (Inr ''ENABLED''), ConfigGet,
        ConfigSet ''p1'' ''foo.googleapis.com'', ConfigGet]"
  by (simp add: eval_defs)

text \<open>
  C5. The claim (a full URL and its bare host name are normalised to the same key and
  give identical results) does not hold of the code when the host name itself starts
  with \<^verbatim>\<open>http\<close>: the URL \<^verbatim>\<open>https://httpbin.googleapis.com\<close> has the host name
  \<^verbatim>\<open>httpbin.googleapis.com\<close>; \<^verbatim>\<open>check\<close> on the URL returns \<open>true\<close>, \<^verbatim>\<open>check\<close> on the host
  name throws.
\<close>

theorem check_url_and_hostname_differ:
  "urlHostname (sampleEnv (Inr ''ENABLED'') (Inr ())) ''https://httpbin.googleapis.com''
     = Some ''httpbin.googleapis.com''
   \<and> fst (check (sampleEnv (Inr ''ENABLED'') (Inr ())) ''p1'' ''https://httpbin.googleapis.com''
        ''pre'' True emptyWorld) = Inr True
   \<and> fst (check (sampleEnv (Inr ''ENABLED'') (Inr ())) ''p1'' ''httpbin.googleapis.com''
        ''pre'' True emptyWorld) = Inl (InvalidURL ''httpbin.googleapis.com'')"
  by (simp add: eval_defs sample_defs)

text \<open>
  The test \<^verbatim>\<open>startsWith("http")\<close> also misses a URL whose scheme is not in lower case: the
  identifier is then not normalised at all, and the whole URL serves as service name.
\<close>

lemma uppercase_scheme_not_normalised:
  "apiNameOf env ''HTTPS://foo.googleapis.com'' = Inr ''HTTPS://foo.googleapis.com''"
  by (simp add: apiNameOf_def startsWith_def)

text \<open>
  C10. A service identifier that starts with \<^verbatim>\<open>http\<close> and that the URL constructor rejects
  makes both \<^verbatim>\<open>check\<close> and \<^verbatim>\<open>ensure\<close> throw the constructor's error with the world
  untouched: no store read, no request, no log line. The bare host name
  \<^verbatim>\<open>httpbin.googleapis.com\<close> is such an identifier.
\<close>

theorem unparseable_http_identifier_throws:
  assumes "startsWith u ''http''" and "urlHostname env u = None"
  shows "check env p u pre silent w = (Inl (InvalidURL u), w)
       \<and> ensure env p u pre silent w = (Inl (InvalidURL u), w)"
  using assms by (simp add: apiNameOf_unparseable check_invalid ensure_invalid)

theorem unparseable_http_identifier_throws_witness:
  "startsWith ''httpbin.googleapis.com'' ''http''
   \<and> urlHostname (sampleEnv (Inr ''ENABLED'') (Inr ())) ''httpbin.googleapis.com'' = None
   \<and> check (sampleEnv (Inr ''ENABLED'') (Inr ())) ''p1'' ''httpbin.googleapis.com'' ''pre'' False
        emptyWorld = (Inl (InvalidURL ''httpbin.googleapis.com''), emptyWorld)
   \<and> ensure (sampleEnv (Inr ''ENABLED'') (Inr ())) ''p1'' ''httpbin.googleapis.com'' ''pre'' False
        emptyWorld = (Inl (InvalidURL ''httpbin.googleapis.com''), emptyWorld)"
proof -
  have a: "startsWith ''httpbin.googleapis.com'' ''http''"
    and b: "urlHostname (sampleEnv (Inr ''ENABLED'') (Inr ())) ''httpbin.googleapis.com'' = None"
    by (simp_all add: sample_defs)
  show ?thesis
    using a b unparseable_http_identifier_throws [OF a b, of "''p1''" "''pre''" False emptyWorld]
    by blast
qed



text \<open>
  C6. \<^verbatim>\<open>bestEffortEnsure\<close> always resolves. Whatever \<^verbatim>\<open>ensure\<close> throws (the client's error,
  the billing error, the rewritten permission error, the timeout error or the URL
  constructor's error), the only thing added to what \<^verbatim>\<open>ensure\<close> did is one debug log line.
\<close>

theorem bestEffortEnsure_never_throws:
  "fst (bestEffortEnsure env p u pre silent w) = Inr ()
   \<and> (\<forall>err. fst (ensure env p u pre silent w) = Inl err \<longrightarrow>
         snd (bestEffortEnsure env p u pre silent w)
           = emit (LogDebug (''Unable to check that '' @ u @ '' is enabled on '' @ p
                     @ ''. Calls to it will fail if it is not enabled''))
               (snd (ensure env p u pre silent w)))"
  by (simp add: bestEffortEnsure_unfold)

theorem bestEffortEnsure_never_throws_witness:
  "fst (ensure (sampleEnv (Inl \<lparr>message = ''socket hang up'', status = None, details = []\<rparr>) (Inr ()))
          ''p1'' ''foo.googleapis.com'' ''pre'' True emptyWorld)
     = Inl (ClientError \<lparr>message = ''socket hang up'', status = None, details = []\<rparr>)
   \<and> fst (bestEffortEnsure (sampleEnv (Inl \<lparr>message = ''socket hang up'', status = None, details = []\<rparr>) (Inr ()))
          ''p1'' ''foo.googleapis.com'' ''pre'' True emptyWorld) = Inr ()
   \<and> trace (snd (bestEffortEnsure (sampleEnv (Inl \<lparr>message = ''socket hang up'', status = None, details = []\<rparr>) (Inr ()))
          ''p1'' ''foo.googleapis.com'' ''pre'' True emptyWorld))
       = [ConfigGet,
          HttpGet ''p1'' ''foo.googleapis.com''
            (Inl \<lparr>message = ''socket hang up'', status = None, details = []\<rparr>),
          LogDebug (''Unable to check that foo.googleapis.com is enabled on p1''
            @ ''. Calls to it will fail if it is not enabled'')]"
proof -
  let ?e = "sampleEnv (Inl \<lparr>message = ''socket hang up'', status = None, details = []\<rparr>) (Inr ())"
  have a: "ensure ?e ''p1'' ''foo.googleapis.com'' ''pre'' True emptyWorld
         = (Inl (ClientError \<lparr>message = ''socket hang up'', status = None, details = []\<rparr>),
            emptyWorld\<lparr>trace := [ConfigGet, HttpGet ''p1'' ''foo.googleapis.com''
               (Inl \<lparr>message = ''socket hang up'', status = None, details = []\<rparr>)]\<rparr>)"
    by (simp add: eval_defs)
  show ?thesis
    using bestEffortEnsure_never_throws [of ?e "''p1''" "''foo.googleapis.com''" "''pre''" True emptyWorld]
    by (simp add: a emit_def)
qed

text \<open>
  C7. When the enable request fails with an error that \<^verbatim>\<open>isBillingError\<close> accepts,
  \<^verbatim>\<open>enable\<close> throws a new \<^verbatim>\<open>FirebaseError\<close> whose message contains the project id and the
  upgrade URL \<^verbatim>\<open>https://console.firebase.google.com/project/<projectId>/usage/details\<close>, which
  contains the project id; the store is not touched.
\<close>

theorem enable_billing_error:
  assumes "apiPost env (trace w) (servicePath p a @ '':enable'') = Inl err"
    and "isBillingError env err"
  shows "fst (enable env p a w) = Inl (FirebaseError (billingMessage env p a))
       \<and> sublist p (billingMessage env p a)
       \<and> sublist (upgradeURL p) (billingMessage env p a)
       \<and> sublist p (upgradeURL p)
       \<and> snd (enable env p a w) = emit (HttpPost p a (Inl err)) w"
proof -
  have r: "fst (enable env p a w) = Inl (FirebaseError (billingMessage env p a))"
    using assms by (simp add: enable_failed)
  have u: "sublist (upgradeURL p) (billingMessage env p a)"
    unfolding billingMessage_def by (simp only: append_assoc [symmetric] sublist_append_leftI)
  have i: "sublist p (upgradeURL p)"
    unfolding upgradeURL_def by (rule sublist_appendI)
  have "sublist p (billingMessage env p a)"
    using i u by (rule sublist_order.order.trans)
  then show ?thesis
    using r u i enable_failed_world [OF assms(1)] by simp
qed

theorem enable_billing_error_witness:
  "isBillingError (sampleEnv (Inr ''DISABLED'')
      (Inl \<lparr>message = ''Billing must be enabled'', status = Some ''FAILED_PRECONDITION'',
            details = [''billing'']\<rparr>))
      \<lparr>message = ''Billing must be enabled'', status = Some ''FAILED_PRECONDITION'',
       details = [''billing'']\<rparr>
   \<and> fst (enable (sampleEnv (Inr ''DISABLED'')
        (Inl \<lparr>message = ''Billing must be enabled'', status = Some ''FAILED_PRECONDITION'',
              details = [''billing'']\<rparr>)) ''p1'' ''foo.googleapis.com'' emptyWorld)
     = Inl (FirebaseError
         (''Your project p1 must be on the Blaze (pay-as-you-go) plan to complete this command. ''
          @ ''Required API foo.googleapis.com can't be enabled until the upgrade is complete. ''
          @ ''To upgrade, visit the following URL:'' @ newline @ newline
          @ ''https://console.firebase.google.com/project/p1/usage/details''))
   \<and> sublist ''p1'' ''https://console.firebase.google.com/project/p1/usage/details''"
proof -
  let ?err = "\<lparr>message = ''Billing must be enabled'', status = Some ''FAILED_PRECONDITION'',
                details = [''billing'']\<rparr>"
  let ?e = "sampleEnv (Inr ''DISABLED'') (Inl ?err)"
  have a: "apiPost ?e (trace emptyWorld) (servicePath ''p1'' ''foo.googleapis.com'' @ '':enable'')
             = Inl ?err"
    and b: "isBillingError ?e ?err"
    by (simp_all add: sampleEnv_def)
  show ?thesis
    using b enable_billing_error [OF a b]
    by (simp add: billingMessage_def upgradeURL_def sampleEnv_def)
qed

text \<open>
  C4. As stated (every permission-denied error whose message matches is re-raised with
  the rewritten message, every other permission-denied error unmodified) the claim does
  not hold for an error that \<^verbatim>\<open>isBillingError\<close> accepts as well: \<^verbatim>\<open>enable\<close> tests for the
  billing error first and then throws a new billing \<^verbatim>\<open>FirebaseError\<close>, whether or not the
  status is \<^verbatim>\<open>PERMISSION_DENIED\<close> and the message matches.
\<close>

theorem enable_permission_error_with_billing:
  "isPermissionError
      \<lparr>message = ''Permission denied to enable service [foo.googleapis.com]'',
       status = Some ''PERMISSION_DENIED'', details = [''billing'']\<rparr>
   \<and> regexExec ''Permission denied to enable service [foo.googleapis.com]''
       = Some ''foo.googleapis.com''
   \<and> fst (enable (sampleEnv (Inr ''DISABLED'')
        (Inl \<lparr>message = ''Permission denied to enable service [foo.googleapis.com]'',
              status = Some ''PERMISSION_DENIED'', details = [''billing'']\<rparr>))
        ''p1'' ''foo.googleapis.com'' emptyWorld)
     = Inl (FirebaseError (billingMessage (sampleEnv (Inr ''DISABLED'')
        (Inl \<lparr>message = ''Permission denied to enable service [foo.googleapis.com]'',
              status = Some ''PERMISSION_DENIED'', details = [''billing'']\<rparr>))
        ''p1'' ''foo.googleapis.com''))"
  by (simp add: isPermissionError_def enable_failed sampleEnv_def emptyWorld_def matchHere_def
        deniedLiteral_def inClass_def startsWith_def)

text \<open>
  C4, amended. Let the enable request fail with an error that \<^verbatim>\<open>isBillingError\<close> rejects and
  whose status is \<^verbatim>\<open>PERMISSION_DENIED\<close>.
  \<^item> If the message matches the pattern \<^verbatim>\<open>Permission denied to enable service [X]\<close> and the
    name \<open>X\<close> of its leftmost match consists of letters and dots, \<^verbatim>\<open>enable\<close> throws that
    error with only its message replaced, and the new message contains the console URL
    \<^verbatim>\<open>https://console.cloud.google.com/apis/library/X?project=<projectId>\<close>.
  \<^item> If the message matches the pattern nowhere, for no name, \<^verbatim>\<open>enable\<close> throws the error
    as it is.
  In both cases the store is not touched. Nothing is said here about a message whose
  leftmost match has a name with other characters.
\<close>

theorem enable_permission_error:
  assumes "apiPost env (trace w) (servicePath p a @ '':enable'') = Inl err"
    and "\<not> isBillingError env err" and "isPermissionError err"
  shows "(\<forall>x. firstPattern (message err) x \<and> x \<noteq> [] \<and> list_all inClass x \<longrightarrow>
            fst (enable env p a w)
              = Inl (ClientError (err\<lparr>message := permissionMessage p x\<rparr>))
            \<and> sublist (enableApiURI p x) (permissionMessage p x))
       \<and> ((\<forall>i x. \<not> patternAt (message err) i x) \<longrightarrow>
            fst (enable env p a w) = Inl (ClientError err))
       \<and> snd (enable env p a w) = emit (HttpPost p a (Inl err)) w"
proof (intro conjI allI impI)
  fix x assume "firstPattern (message err) x \<and> x \<noteq> [] \<and> list_all inClass x"
  then have "firstDenied (message err) x" and ne: "x \<noteq> []"
    by (simp_all add: firstPattern_firstDenied)
  then have "regexExec (message err) = Some x"
    by (simp add: regexExec_firstDenied)
  then show "fst (enable env p a w) = Inl (ClientError (err\<lparr>message := permissionMessage p x\<rparr>))"
    using assms ne by (simp add: enable_failed)
  show "sublist (enableApiURI p x) (permissionMessage p x)"
    by (rule sublist_enableApiURI)
next
  assume "\<forall>i x. \<not> patternAt (message err) i x"
  then have "\<forall>i x. \<not> deniedAt (message err) i x"
    using deniedAt_patternAt by blast
  then have "regexExec (message err) = None"
    by (simp add: regexExec_no_match)
  then show "fst (enable env p a w) = Inl (ClientError err)"
    using assms by (simp add: enable_failed)
next
  show "snd (enable env p a w) = emit (HttpPost p a (Inl err)) w"
    by (rule enable_failed_world [OF assms(1)])
qed

theorem enable_permission_error_witness:
  "\<not> isBillingError (sampleEnv (Inr ''DISABLED'') (Inr ()))
       \<lparr>message = ''Permission denied to enable service [foo.googleapis.com]'',
        status = Some ''PERMISSION_DENIED'', details = []\<rparr>
   \<and> isPermissionError
       \<lparr>message = ''Permission denied to enable service [foo.googleapis.com]'',
        status = Some ''PERMISSION_DENIED'', details = []\<rparr>
   \<and> firstPattern ''Permission denied to enable service [foo.googleapis.com]''
        ''foo.googleapis.com''
   \<and> list_all inClass ''foo.googleapis.com''
   \<and> fst (enable (sampleEnv (Inr ''DISABLED'')
        (Inl \<lparr>message = ''Permission denied to enable service [foo.googleapis.com]'',
              status = Some ''PERMISSION_DENIED'', details = []\<rparr>))
        ''p1'' ''bar.googleapis.com'' emptyWorld)
     = Inl (ClientError
         \<lparr>message = ''Permissions denied enabling foo.googleapis.com.'' @ newline
            @ ''        Please ask a project owner to visit the following URL to enable this service:''
            @ newline @ ''        '' @ newline @ ''        ''
            @ ''https://console.cloud.google.com/apis/library/foo.googleapis.com?project=p1'',
          status = Some ''PERMISSION_DENIED'', details = []\<rparr>)
   \<and> CHR '']'' \<notin> set ''The caller does not have permission''
   \<and> fst (enable (sampleEnv (Inr ''DISABLED'')
        (Inl \<lparr>message = ''The caller does not have permission'',
              status = Some ''PERMISSION_DENIED'', details = []\<rparr>))
        ''p1'' ''bar.googleapis.com'' emptyWorld)
     = Inl (ClientError
         \<lparr>message = ''The caller does not have permission'',
          status = Some ''PERMISSION_DENIED'', details = []\<rparr>)"
proof -
  let ?m1 = "''Permission denied to enable service [foo.googleapis.com]''"
  let ?m2 = "''The caller does not have permission''"
  let ?err1 = "\<lparr>message = ?m1, status = Some ''PERMISSION_DENIED'', details = []\<rparr>"
  let ?err2 = "\<lparr>message = ?m2, status = Some ''PERMISSION_DENIED'', details = []\<rparr>"
  let ?e1 = "sampleEnv (Inr ''DISABLED'') (Inl ?err1)"
  let ?e2 = "sampleEnv (Inr ''DISABLED'') (Inl ?err2)"
  have a1: "apiPost ?e1 (trace emptyWorld) (servicePath ''p1'' ''bar.googleapis.com'' @ '':enable'')
              = Inl ?err1"
    and b1: "\<not> isBillingError ?e1 ?err1"
    and a2: "apiPost ?e2 (trace emptyWorld) (servicePath ''p1'' ''bar.googleapis.com'' @ '':enable'')
              = Inl ?err2"
    and b2: "\<not> isBillingError ?e2 ?err2"
    and b0: "\<not> isBillingError (sampleEnv (Inr ''DISABLED'') (Inr ())) ?err1"
    by (simp_all add: sampleEnv_def)
  have c1: "isPermissionError ?err1" and c2: "isPermissionError ?err2"
    by (simp_all add: isPermissionError_def)
  have p0: "patternAt ?m1 0 ''foo.googleapis.com''"
    by (simp add: patternAt_def deniedLiteral_def)
  then have f1': "firstPattern ?m1 ''foo.googleapis.com''"
    unfolding firstPattern_def by blast
  have cl: "list_all inClass ''foo.googleapis.com''"
    by (simp add: inClass_def)
  have nb: "CHR '']'' \<notin> set ?m2"
    by simp
  then have f2': "\<forall>i x. \<not> patternAt ?m2 i x"
    using patternAt_bracket by blast
  have f1: "firstPattern (message ?err1) ''foo.googleapis.com'' \<and> ''foo.googleapis.com'' \<noteq> []
              \<and> list_all inClass ''foo.googleapis.com''"
    using f1' cl by simp
  have f2: "\<forall>i x. \<not> patternAt (message ?err2) i x"
    using f2' by simp
  have r1: "fst (enable ?e1 ''p1'' ''bar.googleapis.com'' emptyWorld)
              = Inl (ClientError (?err1\<lparr>message := permissionMessage ''p1'' ''foo.googleapis.com''\<rparr>))"
    using enable_permission_error [OF a1 b1 c1] f1 by blast
  have r2: "fst (enable ?e2 ''p1'' ''bar.googleapis.com'' emptyWorld) = Inl (ClientError ?err2)"
    using enable_permission_error [OF a2 b2 c2] f2 by blast
  show ?thesis
    unfolding r1 r2 using b0 c1 f1' cl nb by (simp add: permissionMessage_def)
qed

text \<open>
  What the amended claim leaves out: the class \<^verbatim>\<open>[.a-zA-Z]\<close> of the expression has no
  digits and no hyphen, so for a message that names \<^verbatim>\<open>storage-api.googleapis.com\<close> the
  expression fails and \<^verbatim>\<open>enable\<close> throws the error as it came, although the message
  matches the pattern.
\<close>

lemma enable_permission_error_hyphenated_name:
  "patternAt ''Permission denied to enable service [storage-api.googleapis.com]'' 0
     ''storage-api.googleapis.com''
   \<and> regexExec ''Permission denied to enable service [storage-api.googleapis.com]'' = None
   \<and> fst (enable (sampleEnv (Inr ''DISABLED'')
        (Inl \<lparr>message = ''Permission denied to enable service [storage-api.googleapis.com]'',
              status = Some ''PERMISSION_DENIED'', details = []\<rparr>))
        ''p1'' ''storage-api.googleapis.com'' emptyWorld)
     = Inl (ClientError
         \<lparr>message = ''Permission denied to enable service [storage-api.googleapis.com]'',
          status = Some ''PERMISSION_DENIED'', details = []\<rparr>)"
  by (simp add: patternAt_def isPermissionError_def enable_failed sampleEnv_def emptyWorld_def
        matchHere_def deniedLiteral_def inClass_def startsWith_def)


end
